theory Spec2Isabelle
  imports Complex_Main "HOL-Library.Char_ord" "HOL-Library.List_Lexorder" "HOL-Library.Multiset"
begin

section \<open>Strings and numbers of the host language\<close>

text \<open>
  The program is \<^verbatim>\<open>src/main.py\<close>. Python floats (segment times, the audio duration) are
  modelled as exact rationals, Python's unbounded integers as \<open>int\<close>, and \<open>str\<close> as
  \<open>string\<close>.
\<close>

text \<open>\<^verbatim>\<open>int(x)\<close> on a float: truncation towards zero.\<close>

definition py_int :: "rat \<Rightarrow> int" where
  "py_int x = (if 0 \<le> x then \<lfloor>x\<rfloor> else \<lceil>x\<rceil>)"

text \<open>\<^verbatim>\<open>str(n)\<close> on an integer: the decimal digits, with a minus sign when negative.\<close>

fun str_nat :: "nat \<Rightarrow> string" where
  "str_nat n =
     (if n < 10 then [''0123456789'' ! n]
      else str_nat (n div 10) @ [''0123456789'' ! (n mod 10)])"

declare str_nat.simps [simp del]

definition py_str :: "int \<Rightarrow> string" where
  "py_str n = (if n < 0 then CHR ''-'' # str_nat (nat (- n)) else str_nat (nat n))"

text \<open>
  The format specification \<^verbatim>\<open>{n:0w}\<close> of an f-string on an integer: zero fill up to the
  total width \<open>w\<close>, the sign (if any) in front of the zeros and counted in the width.
\<close>

definition py_format_zero :: "nat \<Rightarrow> int \<Rightarrow> string" where
  "py_format_zero w n =
     (let ds = str_nat (nat \<bar>n\<bar>) in
      if n < 0 then CHR ''-'' # replicate (w - 1 - length ds) CHR ''0'' @ ds
      else replicate (w - length ds) CHR ''0'' @ ds)"

text \<open>\<^verbatim>\<open>sep.join(xs)\<close>.\<close>

fun join :: "string \<Rightarrow> string list \<Rightarrow> string" where
  "join sep [] = []"
| "join sep [x] = x"
| "join sep (x # y # ys) = x @ sep @ join sep (y # ys)"

text \<open>\<^verbatim>\<open>s.lower()\<close>, on the ASCII letters.\<close>

definition lower_char :: "char \<Rightarrow> char" where
  "lower_char c =
     (let k = (of_char c :: nat) in if 65 \<le> k \<and> k \<le> 90 then char_of (k + 32) else c)"

definition lower :: "string \<Rightarrow> string" where
  "lower s = map lower_char s"

section \<open>Paths\<close>

text \<open>
  A \<^verbatim>\<open>pathlib.Path\<close> is the list of its components; paths are compared component by
  component, and the components as strings, which is the order of \<^typ>\<open>string list\<close>.
\<close>

type_synonym path = "string list"

text \<open>\<^verbatim>\<open>Path.name\<close>: the final component, empty when there is none.\<close>

definition name :: "path \<Rightarrow> string" where
  "name p = (if p = [] then [] else last p)"

text \<open>\<^verbatim>\<open>s.rfind('.')\<close>: the index of the last dot, \<open>None\<close> for Python's \<open>-1\<close>.\<close>

fun rfind_dot :: "string \<Rightarrow> nat option" where
  "rfind_dot [] = None"
| "rfind_dot (c # cs) =
     (case rfind_dot cs of
        Some i \<Rightarrow> Some (Suc i)
      | None \<Rightarrow> if c = CHR ''.'' then Some 0 else None)"

text \<open>
  \<^verbatim>\<open>Path.suffix\<close>: with \<open>i = name.rfind('.')\<close>, the text from the dot on when
  \<open>0 < i < len(name) - 1\<close>, otherwise the empty string.
\<close>

definition suffix :: "path \<Rightarrow> string" where
  "suffix p =
     (case rfind_dot (name p) of
        None \<Rightarrow> []
      | Some i \<Rightarrow> if 0 < i \<and> int i < int (length (name p)) - 1 then drop i (name p) else [])"

datatype error =
    ValueError
  | CalledProcessError path

text \<open>
  \<^verbatim>\<open>Path.with_suffix(suffix)\<close>: rejects a malformed suffix and a path with an empty name;
  otherwise replaces the old suffix of the final component, or appends when there is none.
\<close>

definition with_suffix :: "path \<Rightarrow> string \<Rightarrow> error + path" where
  "with_suffix p sfx =
     (if CHR ''/'' \<in> set sfx then Inl ValueError
      else if (sfx \<noteq> [] \<and> hd sfx \<noteq> CHR ''.'') \<or> sfx = ''.'' then Inl ValueError
      else if name p = [] then Inl ValueError
      else Inr (butlast p @
                [(if suffix p = [] then name p
                  else take (length (name p) - length (suffix p)) (name p)) @ sfx]))"

text \<open>\<^verbatim>\<open>AUDIO_DIR / SINGLE_FILE\<close>: an absolute right operand replaces the left one.\<close>

definition joinpath :: "path \<Rightarrow> path \<Rightarrow> path" where
  "joinpath d f = (if f \<noteq> [] \<and> hd f = ''/'' then f else d @ f)"

section \<open>Timestamps\<close>

text \<open>The nested function \<^verbatim>\<open>format_srt_time\<close> (lines 141 to 146).\<close>

definition format_srt_time :: "rat \<Rightarrow> string" where
  "format_srt_time seconds =
     (let ms = py_int ((seconds - of_int (py_int seconds)) * 1000);
          s = py_int seconds mod 60;
          m = (py_int seconds div 60) mod 60;
          h = py_int seconds div 3600
      in py_format_zero 2 h @ '':'' @ py_format_zero 2 m @ '':'' @ py_format_zero 2 s
         @ '','' @ py_format_zero 3 ms)"

section \<open>Segments and the transcript accumulator\<close>

text \<open>One unit of transcribed speech, as the speech engine yields it.\<close>

record segment =
  seg_start :: rat
  seg_end :: rat
  seg_text :: string

text \<open>
  The variables of the segment loop (lines 162 to 169). \<open>pbar_updates\<close> lists the
  arguments of the calls \<^verbatim>\<open>pbar_audio.update(whole_seconds)\<close> in the order they are
  issued; the counter \<^verbatim>\<open>pbar_audio.n\<close> is their sum.
\<close>

record transcript_acc =
  srt_lines :: "string list"
  txt_lines :: "string list"
  index :: int
  last_end :: rat
  progress_accumulation :: rat
  pbar_updates :: "int list"

definition init_acc :: transcript_acc where
  "init_acc = \<lparr>srt_lines = [], txt_lines = [], index = 1, last_end = 0,
     progress_accumulation = 0, pbar_updates = []\<rparr>"

text \<open>The body of \<^verbatim>\<open>for seg in segments\<close> (lines 181 to 215).\<close>

definition consume_segment :: "transcript_acc \<Rightarrow> segment \<Rightarrow> transcript_acc" where
  "consume_segment acc seg =
     (if seg_text seg = [] then acc
      else
        (let start = format_srt_time (seg_start seg);
             end' = format_srt_time (seg_end seg);
             delta = max 0 (seg_end seg - last_end acc);
             accumulated = progress_accumulation acc + delta;
             whole_seconds = py_int accumulated
         in acc\<lparr>srt_lines := srt_lines acc @
                    [py_str (index acc), start @ '' --> '' @ end', seg_text seg, []],
                 txt_lines := txt_lines acc @ [seg_text seg],
                 last_end := seg_end seg,
                 progress_accumulation :=
                   (if whole_seconds > 0 then accumulated - of_int whole_seconds
                    else accumulated),
                 pbar_updates :=
                   (if whole_seconds > 0 then pbar_updates acc @ [whole_seconds]
                    else pbar_updates acc),
                 index := index acc + 1\<rparr>))"

fun consume_segments :: "transcript_acc \<Rightarrow> segment list \<Rightarrow> transcript_acc" where
  "consume_segments acc [] = acc"
| "consume_segments acc (seg # segs) = consume_segments (consume_segment acc seg) segs"

section \<open>The run: configuration, collaborators, effects\<close>

text \<open>
  The parsed arguments that steer the control flow. The tuning parameters (model,
  language, beam size, chunk length, silence, compute type, prompt, VAD) are only handed
  to the speech engine, which is a parameter of the model.
\<close>

record config =
  AUDIO_DIR :: path
  start_arg :: int
  SINGLE_FILE :: "path option"
  CONVERT_TO_WAV_ONLY :: bool
  KEEP_WAV_FILES :: bool
  FILE_COUNT :: bool

text \<open>
  The external collaborators: the names that \<^verbatim>\<open>AUDIO_DIR.iterdir()\<close> yields, in the
  order it yields them; whether the media converter exits with status zero on an input;
  and what the speech engine returns for a WAV path (the segments and
  \<^verbatim>\<open>info.duration\<close>, which may be \<open>None\<close>).
\<close>

record world =
  listdir :: "string list"
  ffmpeg_ok :: "path \<Rightarrow> bool"
  transcribe :: "path \<Rightarrow> segment list \<times> rat option"

datatype entry = RegularFile | Directory

type_synonym filesystem = "path \<Rightarrow> entry option"

definition path_exists :: "filesystem \<Rightarrow> path \<Rightarrow> bool" where
  "path_exists fs p = (fs p \<noteq> None)"

definition is_file :: "filesystem \<Rightarrow> path \<Rightarrow> bool" where
  "is_file fs p = (fs p = Some RegularFile)"

datatype message =
    Msg_StartingFrom int
  | Msg_TotalFiles int
  | Msg_OutOfRange
  | Msg_LoadingModel
  | Msg_Skipping string
  | Msg_Missing
  | Msg_Processing int int path
  | Msg_Converting int int
  | Msg_ConversionDone int int path
  | Msg_StartingWhisper int int
  | Msg_Transcribing path
  | Msg_EmptyTranscript
  | Msg_StartingWriting
  | Msg_Wrote path
  | Msg_Done int int
  | Msg_Bye

text \<open>
  The observable effects, in program order: console messages, the two progress bars,
  the converter, the engine, the written documents and the deletion of the WAV.
\<close>

datatype event =
    Print message
  | FilesBar int int
  | FilesUpdate int
  | FilesBarClose
  | LoadModel
  | Ffmpeg path path
  | Transcribe path
  | AudioBar int
  | AudioUpdate int
  | AudioBarClose
  | WriteText path string
  | Unlink path

record run_state =
  fs :: filesystem
  count :: int
  trace :: "event list"

definition emit :: "event list \<Rightarrow> run_state \<Rightarrow> run_state" where
  "emit evs st = st\<lparr>trace := trace st @ evs\<rparr>"

definition AUDIO_EXTS :: "string set" where
  "AUDIO_EXTS = {''.mp3'', ''.wav'', ''.m4a'', ''.flac'', ''.avi'', ''.mp4'', ''.ts''}"

definition SKIP_FILES :: "string set" where
  "SKIP_FILES = {''00. Professor.avi''}"

section \<open>Processing one file\<close>

text \<open>
  From the call of the speech engine to the end of the loop body (lines 139 to 240).
  The audio bar is closed when the \<^verbatim>\<open>with\<close> block ends; \<open>remaining\<close> is its total
  minus its counter. Everything from the empty-transcript test to the increment of
  \<open>count\<close> stands inside \<^verbatim>\<open>if remaining > 0\<close>, and the \<^verbatim>\<open>continue\<close> of the
  empty transcript leaves the loop body before \<^verbatim>\<open>pbar_files.update(1)\<close>.
\<close>

definition transcribe_and_write ::
  "config \<Rightarrow> world \<Rightarrow> int \<Rightarrow> bool \<Rightarrow> path \<Rightarrow> run_state \<Rightarrow> error + run_state" where
  "transcribe_and_write cfg w total_files created_wav_file out_wav st =
     (let (segments, duration) = transcribe w out_wav;
          total_duration = (case duration of None \<Rightarrow> 0 | Some d \<Rightarrow> d);
          pbar_total = py_int total_duration;
          acc = consume_segments init_acc segments;
          st1 = emit ([Print (Msg_StartingWhisper (count st) total_files),
                       Print (Msg_Transcribing out_wav),
                       Transcribe out_wav, AudioBar pbar_total]
                      @ map AudioUpdate (pbar_updates acc) @ [AudioBarClose]) st;
          remaining = pbar_total - sum_list (pbar_updates acc)
      in if remaining > 0 then
           (let st2 = emit [AudioUpdate remaining] st1 in
            if srt_lines acc = [] then
              Inr ((emit [Print Msg_EmptyTranscript] st2)\<lparr>count := count st + 1\<rparr>)
            else
              (case with_suffix out_wav ''.txt'' of
                 Inl e \<Rightarrow> Inl e
               | Inr out_txt \<Rightarrow>
              (case with_suffix out_wav ''.srt'' of
                 Inl e \<Rightarrow> Inl e
               | Inr out_srt \<Rightarrow>
                 (let st3 = (emit [Print Msg_StartingWriting,
                                   WriteText out_txt (join [CHR 0x0A] (txt_lines acc)),
                                   WriteText out_srt (join [CHR 0x0A] (srt_lines acc)),
                                   Print (Msg_Wrote out_txt), Print (Msg_Wrote out_srt),
                                   Print (Msg_Done (count st) total_files)] st2)
                              \<lparr>fs := (fs st)(out_txt \<mapsto> RegularFile, out_srt \<mapsto> RegularFile)\<rparr>;
                      st4 = (if created_wav_file \<and> \<not> KEEP_WAV_FILES cfg \<and> is_file (fs st3) out_wav
                             then (emit [Unlink out_wav] st3)\<lparr>fs := (fs st3)(out_wav := None)\<rparr>
                             else st3)
                  in Inr ((emit [FilesUpdate 1] st4)\<lparr>count := count st + 1\<rparr>)))))
         else Inr (emit [FilesUpdate 1] st1))"

text \<open>
  The body of \<^verbatim>\<open>for file_path in files[START:]\<close> (lines 94 to 240). A non-zero exit of
  the converter raises (\<^verbatim>\<open>check=True\<close>) and nothing catches it.
\<close>

definition process_file ::
  "config \<Rightarrow> world \<Rightarrow> int \<Rightarrow> run_state \<Rightarrow> path \<Rightarrow> error + run_state" where
  "process_file cfg w total_files st file_path =
     (if name file_path \<in> SKIP_FILES then
        Inr ((emit [Print (Msg_Skipping (name file_path))] st)\<lparr>count := count st + 1\<rparr>)
      else if \<not> path_exists (fs st) file_path then
        Inr ((emit [Print Msg_Missing] st)\<lparr>count := count st + 1\<rparr>)
      else
        (let st1 = emit [Print (Msg_Processing (count st) total_files file_path),
                         Print (Msg_Converting (count st) total_files)] st in
         case with_suffix file_path ''.wav'' of
           Inl e \<Rightarrow> Inl e
         | Inr out_wav \<Rightarrow>
             if lower (suffix file_path) \<noteq> ''.wav'' then
               (if \<not> ffmpeg_ok w file_path then Inl (CalledProcessError file_path)
                else
                  (let st2 = (emit [Ffmpeg file_path out_wav,
                                    Print (Msg_ConversionDone (count st) total_files out_wav)] st1)
                               \<lparr>fs := (fs st)(out_wav \<mapsto> RegularFile)\<rparr>
                   in if CONVERT_TO_WAV_ONLY cfg then Inr (st2\<lparr>count := count st + 1\<rparr>)
                      else transcribe_and_write cfg w total_files True out_wav st2))
             else transcribe_and_write cfg w total_files False out_wav st1))"

fun file_loop :: "config \<Rightarrow> world \<Rightarrow> int \<Rightarrow> run_state \<Rightarrow> path list \<Rightarrow> error + run_state" where
  "file_loop cfg w total_files st [] = Inr st"
| "file_loop cfg w total_files st (file_path # rest) =
     (case process_file cfg w total_files st file_path of
        Inl e \<Rightarrow> Inl e
      | Inr st' \<Rightarrow> file_loop cfg w total_files st' rest)"

section \<open>The whole run\<close>

text \<open>The slice \<^verbatim>\<open>xs[i:]\<close>: a negative \<open>i\<close> counts from the end.\<close>

definition py_slice_from :: "'a list \<Rightarrow> int \<Rightarrow> 'a list" where
  "py_slice_from xs i =
     (if i < 0 then drop (nat (int (length xs) + i)) xs else drop (nat i) xs)"

text \<open>File discovery (lines 55 to 66).\<close>

definition discover :: "config \<Rightarrow> world \<Rightarrow> filesystem \<Rightarrow> path list" where
  "discover cfg w fs0 =
     (case SINGLE_FILE cfg of
        Some file \<Rightarrow> if path_exists fs0 file then [file] else [joinpath (AUDIO_DIR cfg) file]
      | None \<Rightarrow>
          sort (filter (\<lambda>p. is_file fs0 p \<and> lower (suffix p) \<in> AUDIO_EXTS)
                  (map (\<lambda>n. AUDIO_DIR cfg @ [n]) (listdir w))))"

text \<open>\<^verbatim>\<open>whisper_folder\<close>, from the parsed arguments on.\<close>

definition whisper_folder :: "config \<Rightarrow> world \<Rightarrow> filesystem \<Rightarrow> error + run_state" where
  "whisper_folder cfg w fs0 =
     (let START = start_arg cfg - 1;
          files = discover cfg w fs0;
          total_files = int (length files);
          st0 = \<lparr>fs = fs0, count = 0, trace = [Print (Msg_StartingFrom (START + 1))]\<rparr>
      in if FILE_COUNT cfg then Inr (emit [Print (Msg_TotalFiles total_files)] st0)
         else if START < 0 \<or> START > int (length files) - 1 then
           Inr (emit [Print Msg_OutOfRange] st0)
         else
           (case file_loop cfg w total_files
                   ((emit [FilesBar total_files START, Print Msg_LoadingModel, LoadModel] st0)
                      \<lparr>count := START + 1\<rparr>)
                   (py_slice_from files START) of
              Inl e \<Rightarrow> Inl e
            | Inr st \<Rightarrow> Inr (emit [FilesBarClose, Print Msg_Bye] st)))"

text \<open>Classifiers of events, for statements about traces.\<close>

fun is_write :: "event \<Rightarrow> bool" where
  "is_write (WriteText p s) = True"
| "is_write e = False"

fun is_ffmpeg :: "event \<Rightarrow> bool" where
  "is_ffmpeg (Ffmpeg p q) = True"
| "is_ffmpeg e = False"

fun is_transcribe :: "event \<Rightarrow> bool" where
  "is_transcribe (Transcribe p) = True"
| "is_transcribe e = False"

fun is_unlink :: "event \<Rightarrow> bool" where
  "is_unlink (Unlink p) = True"
| "is_unlink e = False"

fun is_files_update :: "event \<Rightarrow> bool" where
  "is_files_update (FilesUpdate k) = True"
| "is_files_update e = False"

section \<open>The timestamp format as the specification words it\<close>







section \<open>Auxiliary notions for the segment loop\<close>

text \<open>A segment is usable when its text is not empty (the test of line 182).\<close>

definition usable :: "segment \<Rightarrow> bool" where
  "usable seg = (seg_text seg \<noteq> [])"


text \<open>
  The subtitle blocks as the specification words them: for each segment, in order and
  numbered from \<open>i\<close>, the four lines index, time range, text and blank line.
\<close>

fun srt_blocks :: "int \<Rightarrow> segment list \<Rightarrow> string list" where
  "srt_blocks i [] = []"
| "srt_blocks i (seg # segs) =
     [py_str i, format_srt_time (seg_start seg) @ '' --> '' @ format_srt_time (seg_end seg),
      seg_text seg, []] @ srt_blocks (i + 1) segs"

text \<open>
  A directory entry as the specification recognizes it: a regular file whose extension,
  compared case-insensitively, is one of the seven listed.
\<close>

definition recognized :: "filesystem \<Rightarrow> path \<Rightarrow> bool" where
  "recognized fs0 p =
     (is_file fs0 p \<and>
      lower (suffix p) \<in> {''.mp3'', ''.wav'', ''.m4a'', ''.flac'', ''.avi'', ''.mp4'', ''.ts''})"

text \<open>
  The message that opens the handling of one file of the queue: each pass through the
  loop body prints exactly one of these three first.
\<close>

fun is_file_start :: "event \<Rightarrow> bool" where
  "is_file_start (Print (Msg_Skipping n)) = True"
| "is_file_start (Print Msg_Missing) = True"
| "is_file_start (Print (Msg_Processing c t p)) = True"
| "is_file_start e = False"

section \<open>Timestamps: the formatter meets its specification\<close>













section \<open>The segment loop\<close>

lemma consume_segment_unusable: "\<not> usable seg \<Longrightarrow> consume_segment acc seg = acc"
  by (simp add: consume_segment_def usable_def)

lemma consume_segments_filter:
  "consume_segments acc segs = consume_segments acc (filter usable segs)"
  by (induction segs arbitrary: acc) (simp_all add: consume_segment_unusable)

lemma consume_segments_append:
  "consume_segments acc (xs @ ys) = consume_segments (consume_segments acc xs) ys"
  by (induction xs arbitrary: acc) simp_all






section \<open>The subtitle and plain-text documents\<close>

lemma consume_usable_lines:
  "\<forall>s\<in>set segs. usable s \<Longrightarrow>
   srt_lines (consume_segments acc segs) = srt_lines acc @ srt_blocks (index acc) segs
   \<and> txt_lines (consume_segments acc segs) = txt_lines acc @ map seg_text segs
   \<and> index (consume_segments acc segs) = index acc + int (length segs)"
proof (induction segs arbitrary: acc)
  case Nil
  then show ?case by simp
next
  case (Cons seg segs)
  then have u: "seg_text seg \<noteq> []" and r: "\<forall>s\<in>set segs. usable s"
    by (simp_all add: usable_def)
  have s: "srt_lines (consume_segment acc seg) = srt_lines acc @
      [py_str (index acc), format_srt_time (seg_start seg) @ '' --> '' @ format_srt_time (seg_end seg),
       seg_text seg, []]"
    and t: "txt_lines (consume_segment acc seg) = txt_lines acc @ [seg_text seg]"
    and i: "index (consume_segment acc seg) = index acc + 1"
    using u by (simp_all add: consume_segment_def Let_def)
  from Cons.IH [OF r, of "consume_segment acc seg"] show ?case
    by (simp add: s t i)
qed

lemma length_srt_blocks: "length (srt_blocks i segs) = 4 * length segs"
  by (induction segs arbitrary: i) simp_all

lemma srt_blocks_nth:
  "k < length segs \<Longrightarrow>
   take 4 (drop (4 * k) (srt_blocks i segs)) =
     [py_str (i + int k),
      format_srt_time (seg_start (segs ! k)) @ '' --> '' @ format_srt_time (seg_end (segs ! k)),
      seg_text (segs ! k), []]"
proof (induction segs arbitrary: i k)
  case Nil
  then show ?case by simp
next
  case (Cons seg segs)
  show ?case
  proof (cases k)
    case 0
    then show ?thesis by simp
  next
    case (Suc j)
    with Cons.prems have j: "j < length segs" by simp
    have k4: "4 * k = Suc (Suc (Suc (Suc (4 * j))))" using Suc by simp
    have "drop (4 * k) (srt_blocks i (seg # segs)) = drop (4 * j) (srt_blocks (i + 1) segs)"
      unfolding k4 by simp
    with Cons.IH [OF j, of "i + 1"] Suc show ?thesis by (simp add: add.assoc)
  qed
qed

text \<open>
  C4: the lines of the subtitle document built from a segment sequence are exactly one
  block per segment with non-empty text, in input order, numbered sequentially from 1,
  each block being the four lines index, \<open>start --> end\<close>, text and blank line; the
  plain-text lines are the texts of the same segments. Segments with empty text appear in
  neither and consume no index; when every text is non-empty there is one block per
  segment of the input. (No ordering of the times is needed.)
\<close>

theorem subtitle_blocks:
  "srt_lines (consume_segments init_acc segs) = srt_blocks 1 (filter usable segs)
   \<and> txt_lines (consume_segments init_acc segs) = map seg_text (filter usable segs)
   \<and> length (srt_lines (consume_segments init_acc segs)) = 4 * length (filter usable segs)
   \<and> (\<forall>k < length (filter usable segs).
        take 4 (drop (4 * k) (srt_lines (consume_segments init_acc segs))) =
          [py_str (1 + int k),
           format_srt_time (seg_start (filter usable segs ! k)) @ '' --> ''
             @ format_srt_time (seg_end (filter usable segs ! k)),
           seg_text (filter usable segs ! k), []])
   \<and> ((\<forall>s\<in>set segs. seg_text s \<noteq> []) \<longrightarrow> filter usable segs = segs)"
proof -
  let ?us = "filter usable segs"
  have "\<forall>s\<in>set ?us. usable s" by simp
  from consume_usable_lines [OF this, of init_acc]
  have a: "srt_lines (consume_segments init_acc segs) = srt_blocks 1 ?us"
    and b: "txt_lines (consume_segments init_acc segs) = map seg_text ?us"
    unfolding consume_segments_filter [of init_acc segs, symmetric]
    by (simp_all add: init_acc_def)
  have c: "length (srt_lines (consume_segments init_acc segs)) = 4 * length ?us"
    unfolding a by (rule length_srt_blocks)
  have d: "\<forall>k < length ?us.
        take 4 (drop (4 * k) (srt_lines (consume_segments init_acc segs))) =
          [py_str (1 + int k),
           format_srt_time (seg_start (?us ! k)) @ '' --> '' @ format_srt_time (seg_end (?us ! k)),
           seg_text (?us ! k), []]"
    unfolding a using srt_blocks_nth [of _ ?us 1] by blast
  have e: "(\<forall>s\<in>set segs. seg_text s \<noteq> []) \<longrightarrow> ?us = segs"
    by (simp add: usable_def)
  from a b c d e show ?thesis by blast
qed

theorem subtitle_blocks_witness:
  "list_all (\<lambda>s. seg_text s \<noteq> [])
        [\<lparr>seg_start = 0, seg_end = 3 / 2, seg_text = ''hello''\<rparr>,
         \<lparr>seg_start = 2, seg_end = 5 / 2, seg_text = ''world''\<rparr>]
   \<and> (1::nat) < length (filter usable
             [\<lparr>seg_start = 0, seg_end = 3 / 2, seg_text = ''hello''\<rparr>,
              \<lparr>seg_start = 2, seg_end = 5 / 2, seg_text = ''world''\<rparr>])
   \<and> take 4 (drop (4 * 1) (srt_lines (consume_segments init_acc
             [\<lparr>seg_start = 0, seg_end = 3 / 2, seg_text = ''hello''\<rparr>,
              \<lparr>seg_start = 2, seg_end = 5 / 2, seg_text = ''world''\<rparr>])))
       = [''2'', ''00:00:02,000 --> 00:00:02,500'', ''world'', []]
   \<and> filter usable [\<lparr>seg_start = 0, seg_end = 3 / 2, seg_text = ''hello''\<rparr>,
              \<lparr>seg_start = 2, seg_end = 5 / 2, seg_text = ''world''\<rparr>]
       = [\<lparr>seg_start = 0, seg_end = 3 / 2, seg_text = ''hello''\<rparr>,
              \<lparr>seg_start = 2, seg_end = 5 / 2, seg_text = ''world''\<rparr>]"
proof -
  let ?segs = "[\<lparr>seg_start = 0, seg_end = 3 / 2, seg_text = ''hello''\<rparr>,
              \<lparr>seg_start = 2, seg_end = 5 / 2, seg_text = ''world''\<rparr>]"
  note t = subtitle_blocks [of ?segs]
  have h1: "\<forall>s\<in>set ?segs. seg_text s \<noteq> []" by simp
  from t [THEN conjunct2, THEN conjunct2, THEN conjunct2, THEN conjunct2] h1
  have f: "filter usable ?segs = ?segs" by (rule mp)
  have h2: "(1::nat) < length (filter usable ?segs)" unfolding f by simp
  from t [THEN conjunct2, THEN conjunct2, THEN conjunct2, THEN conjunct1] h2
  have "take 4 (drop (4 * 1) (srt_lines (consume_segments init_acc ?segs))) =
          [py_str (1 + int 1),
           format_srt_time (seg_start (filter usable ?segs ! 1)) @ '' --> ''
             @ format_srt_time (seg_end (filter usable ?segs ! 1)),
           seg_text (filter usable ?segs ! 1), []]"
    by blast
  moreover have "py_str (1 + int 1) = ''2''" by code_simp
  moreover have "format_srt_time 2 = ''00:00:02,000''" by code_simp
  moreover have "format_srt_time (5 / 2) = ''00:00:02,500''" by code_simp
  ultimately have b: "take 4 (drop (4 * 1) (srt_lines (consume_segments init_acc ?segs)))
       = [''2'', ''00:00:02,000 --> 00:00:02,500'', ''world'', []]"
    unfolding f by simp
  have h0: "list_all (\<lambda>s. seg_text s \<noteq> []) ?segs" by simp
  from h0 h2 b f show ?thesis by blast
qed

section \<open>Effects of handling one file\<close>

lemma filter_audio_updates [simp]:
  "filter is_ffmpeg (map AudioUpdate ks) = []"
  "filter is_unlink (map AudioUpdate ks) = []"
  "filter is_write (map AudioUpdate ks) = []"
  "filter is_transcribe (map AudioUpdate ks) = []"
  "filter is_files_update (map AudioUpdate ks) = []"
  by (induction ks) simp_all

lemma name_nonempty_of_suffix: "suffix p \<noteq> [] \<Longrightarrow> name p \<noteq> []"
  by (auto simp: suffix_def split: option.splits)

lemma with_suffix_ok:
  "name p \<noteq> [] \<Longrightarrow> sfx \<in> {''.wav'', ''.txt'', ''.srt''} \<Longrightarrow>
   \<exists>q. with_suffix p sfx = Inr q \<and> name q \<noteq> []"
  by (auto simp: with_suffix_def name_def)

lemma consume_no_usable:
  "filter usable segs = [] \<Longrightarrow> consume_segments init_acc segs = init_acc"
  using consume_segments_filter [of init_acc segs] by simp

lemma taw_trace:
  assumes "transcribe_and_write cfg w tot created out st = Inr st'"
  shows "filter is_ffmpeg (trace st') = filter is_ffmpeg (trace st)"
    and "\<not> created \<Longrightarrow> filter is_unlink (trace st') = filter is_unlink (trace st)"
    and "filter is_transcribe (trace st') = filter is_transcribe (trace st) @ [Transcribe out]"
  using assms
  by (auto simp: transcribe_and_write_def emit_def Let_def split: prod.splits sum.splits if_splits)

lemma taw_empty:
  assumes "filter usable (fst (transcribe w out)) = []"
  shows "\<exists>st'. transcribe_and_write cfg w tot created out st = Inr st'
     \<and> filter is_write (trace st') = filter is_write (trace st)"
  using assms consume_no_usable [of "fst (transcribe w out)"]
  by (auto simp: transcribe_and_write_def emit_def Let_def init_acc_def split: prod.splits)

lemma taw_total:
  assumes "name out \<noteq> []"
  shows "\<exists>st'. transcribe_and_write cfg w tot created out st = Inr st'"
proof -
  obtain t where t: "with_suffix out ''.txt'' = Inr t" using with_suffix_ok [OF assms, of "''.txt''"] by auto
  obtain s where s: "with_suffix out ''.srt'' = Inr s" using with_suffix_ok [OF assms, of "''.srt''"] by auto
  show ?thesis
    by (simp add: transcribe_and_write_def Let_def t s split: prod.splits)
qed

lemma taw_cfg:
  "transcribe_and_write (cfg\<lparr>CONVERT_TO_WAV_ONLY := b\<rparr>) w tot created out st
   = transcribe_and_write cfg w tot created out st"
  by (simp add: transcribe_and_write_def Let_def split: prod.splits sum.splits)



text \<open>
  C10: in conversion-only mode a file whose extension is already \<open>.wav\<close>
  (case-insensitively) is handled exactly as in normal mode, since the early exit of the
  mode sits inside the branch of the non-WAV inputs: the two results are equal, and when
  the file is not on the skip list and exists, it is handed to the speech engine.
\<close>

theorem convert_only_wav_still_transcribed:
  assumes "lower (suffix file_path) = ''.wav''"
  shows "process_file (cfg\<lparr>CONVERT_TO_WAV_ONLY := True\<rparr>) w tot st file_path
         = process_file (cfg\<lparr>CONVERT_TO_WAV_ONLY := False\<rparr>) w tot st file_path
     \<and> (name file_path \<notin> SKIP_FILES \<and> path_exists (fs st) file_path \<longrightarrow>
          (\<exists>st' out_wav. with_suffix file_path ''.wav'' = Inr out_wav
             \<and> process_file (cfg\<lparr>CONVERT_TO_WAV_ONLY := True\<rparr>) w tot st file_path = Inr st'
             \<and> filter is_transcribe (trace st')
                 = filter is_transcribe (trace st) @ [Transcribe out_wav]))"
proof -
  have a: "process_file (cfg\<lparr>CONVERT_TO_WAV_ONLY := True\<rparr>) w tot st file_path
         = process_file (cfg\<lparr>CONVERT_TO_WAV_ONLY := False\<rparr>) w tot st file_path"
    using assms by (simp add: process_file_def Let_def taw_cfg split: sum.splits)
  from assms have "suffix file_path \<noteq> []" by (auto simp: lower_def)
  then have n: "name file_path \<noteq> []" by (rule name_nonempty_of_suffix)
  then obtain out where o: "with_suffix file_path ''.wav'' = Inr out" and no: "name out \<noteq> []"
    using with_suffix_ok [of file_path "''.wav''"] by auto
  let ?st1 = "emit [Print (Msg_Processing (count st) tot file_path),
                         Print (Msg_Converting (count st) tot)] st"
  obtain st2 where t: "transcribe_and_write cfg w tot False out ?st1 = Inr st2"
    using taw_total [OF no] by blast
  note tr = taw_trace(3) [OF t]
  have b: "name file_path \<notin> SKIP_FILES \<and> path_exists (fs st) file_path \<longrightarrow>
          (\<exists>st' out_wav. with_suffix file_path ''.wav'' = Inr out_wav
             \<and> process_file (cfg\<lparr>CONVERT_TO_WAV_ONLY := True\<rparr>) w tot st file_path = Inr st'
             \<and> filter is_transcribe (trace st')
                 = filter is_transcribe (trace st) @ [Transcribe out_wav])"
    using assms o t tr by (simp add: process_file_def Let_def emit_def taw_cfg)
  from a b show ?thesis by blast
qed

theorem convert_only_wav_still_transcribed_witness:
  "lower (suffix [''d'', ''a.wav'']) = ''.wav''
   \<and> name [''d'', ''a.wav''] \<notin> SKIP_FILES
   \<and> path_exists [[''d'', ''a.wav''] \<mapsto> RegularFile] [''d'', ''a.wav'']
   \<and> (case process_file
        \<lparr>AUDIO_DIR = [''d''], start_arg = 1, SINGLE_FILE = None, CONVERT_TO_WAV_ONLY = True,
         KEEP_WAV_FILES = False, FILE_COUNT = False\<rparr>
        \<lparr>listdir = [''a.wav''], ffmpeg_ok = (\<lambda>p. True),
         transcribe = (\<lambda>p. ([\<lparr>seg_start = 0, seg_end = 3, seg_text = ''hi''\<rparr>], Some 10))\<rparr>
        1 \<lparr>fs = [[''d'', ''a.wav''] \<mapsto> RegularFile], count = 1, trace = []\<rparr>
        [''d'', ''a.wav'']
      of Inl e \<Rightarrow> False
       | Inr st' \<Rightarrow> filter is_transcribe (trace st') = [Transcribe [''d'', ''a.wav'']]
           \<and> filter is_write (trace st') =
                [WriteText [''d'', ''a.txt''] ''hi'',
                 WriteText [''d'', ''a.srt'']
                   (''1'' @ [CHR 0x0A] @ ''00:00:00,000 --> 00:00:03,000'' @ [CHR 0x0A] @ ''hi'' @ [CHR 0x0A])])"
proof -
  let ?cfg = "\<lparr>AUDIO_DIR = [''d''], start_arg = 1, SINGLE_FILE = None, CONVERT_TO_WAV_ONLY = True,
         KEEP_WAV_FILES = False, FILE_COUNT = False\<rparr>"
  let ?w = "\<lparr>listdir = [''a.wav''], ffmpeg_ok = (\<lambda>p. True),
         transcribe = (\<lambda>p. ([\<lparr>seg_start = 0, seg_end = 3, seg_text = ''hi''\<rparr>], Some 10))\<rparr>"
  let ?st = "\<lparr>fs = [[''d'', ''a.wav''] \<mapsto> RegularFile], count = 1, trace = []\<rparr>"
  let ?p = "[''d'', ''a.wav'']"
  have h: "lower (suffix ?p) = ''.wav''" by code_simp
  have s: "name ?p \<notin> SKIP_FILES" by (simp add: name_def SKIP_FILES_def)
  have e: "path_exists (fs ?st) ?p" by (simp add: path_exists_def)
  have c: "?cfg\<lparr>CONVERT_TO_WAV_ONLY := True\<rparr> = ?cfg" by simp
  have o: "with_suffix ?p ''.wav'' = Inr ?p" by code_simp
  from convert_only_wav_still_transcribed [OF h, of ?cfg ?w 1 ?st, THEN conjunct2] s e
  obtain st' where r: "process_file ?cfg ?w 1 ?st ?p = Inr st'"
    and t: "filter is_transcribe (trace st') = [Transcribe ?p]"
    unfolding c o by auto
  have "(case process_file ?cfg ?w 1 ?st ?p of Inl e \<Rightarrow> None
          | Inr st' \<Rightarrow> Some (filter is_write (trace st'))) =
        Some [WriteText [''d'', ''a.txt''] ''hi'',
                 WriteText [''d'', ''a.srt'']
                   (''1'' @ [CHR 0x0A] @ ''00:00:00,000 --> 00:00:03,000'' @ [CHR 0x0A] @ ''hi'' @ [CHR 0x0A])]"
    by code_simp
  with r t h s show ?thesis by (simp add: path_exists_def)
qed

text \<open>
  C3: when the transcription of a file yields no segment with non-empty text (the
  conversion, where one is needed, having succeeded), handling the file returns normally,
  writes neither the \<open>.srt\<close> nor the \<open>.txt\<close> document, and the loop goes on with the next
  file of the queue.
\<close>

theorem empty_transcript_no_output:
  assumes "with_suffix file_path ''.wav'' = Inr out_wav"
    and "filter usable (fst (transcribe w out_wav)) = []"
    and "lower (suffix file_path) = ''.wav'' \<or> ffmpeg_ok w file_path"
  shows "\<exists>st'. process_file cfg w tot st file_path = Inr st'
     \<and> filter is_write (trace st') = filter is_write (trace st)
     \<and> file_loop cfg w tot st (file_path # rest) = file_loop cfg w tot st' rest"
proof -
  have "\<exists>st'. process_file cfg w tot st file_path = Inr st'
     \<and> filter is_write (trace st') = filter is_write (trace st)"
  proof (cases "lower (suffix file_path) = ''.wav''")
    case True
    let ?st1 = "emit [Print (Msg_Processing (count st) tot file_path),
                         Print (Msg_Converting (count st) tot)] st"
    from taw_empty [OF assms(2), of cfg tot False ?st1]
    show ?thesis using True assms(1) by (auto simp: process_file_def Let_def emit_def)
  next
    case False
    with assms(3) have ok: "ffmpeg_ok w file_path" by simp
    let ?st2 = "(emit [Ffmpeg file_path out_wav,
                       Print (Msg_ConversionDone (count st) tot out_wav)]
                  (emit [Print (Msg_Processing (count st) tot file_path),
                         Print (Msg_Converting (count st) tot)] st))
                  \<lparr>fs := (fs st)(out_wav \<mapsto> RegularFile)\<rparr>"
    from taw_empty [OF assms(2), of cfg tot True ?st2]
    show ?thesis using False ok assms(1) by (auto simp: process_file_def Let_def emit_def)
  qed
  then show ?thesis by auto
qed

theorem empty_transcript_no_output_witness:
  "with_suffix [''d'', ''b.mp3''] ''.wav'' = Inr [''d'', ''b.wav'']
   \<and> filter usable (fst (([\<lparr>seg_start = 0, seg_end = 2, seg_text = []\<rparr>], Some (5::rat)))) = []
   \<and> (case process_file
        \<lparr>AUDIO_DIR = [''d''], start_arg = 1, SINGLE_FILE = None, CONVERT_TO_WAV_ONLY = False,
         KEEP_WAV_FILES = False, FILE_COUNT = False\<rparr>
        \<lparr>listdir = [''b.mp3''], ffmpeg_ok = (\<lambda>p. True),
         transcribe = (\<lambda>p. ([\<lparr>seg_start = 0, seg_end = 2, seg_text = []\<rparr>], Some 5))\<rparr>
        1 \<lparr>fs = [[''d'', ''b.mp3''] \<mapsto> RegularFile], count = 1, trace = []\<rparr>
        [''d'', ''b.mp3'']
      of Inl e \<Rightarrow> False
       | Inr st' \<Rightarrow> filter is_write (trace st') = []
           \<and> trace st' =
               [Print (Msg_Processing 1 1 [''d'', ''b.mp3'']), Print (Msg_Converting 1 1),
                Ffmpeg [''d'', ''b.mp3''] [''d'', ''b.wav''],
                Print (Msg_ConversionDone 1 1 [''d'', ''b.wav'']),
                Print (Msg_StartingWhisper 1 1), Print (Msg_Transcribing [''d'', ''b.wav'']),
                Transcribe [''d'', ''b.wav''], AudioBar 5, AudioBarClose, AudioUpdate 5,
                Print Msg_EmptyTranscript])"
proof -
  let ?cfg = "\<lparr>AUDIO_DIR = [''d''], start_arg = 1, SINGLE_FILE = None, CONVERT_TO_WAV_ONLY = False,
         KEEP_WAV_FILES = False, FILE_COUNT = False\<rparr>"
  let ?w = "\<lparr>listdir = [''b.mp3''], ffmpeg_ok = (\<lambda>p. True),
         transcribe = (\<lambda>p. ([\<lparr>seg_start = 0, seg_end = 2, seg_text = []\<rparr>], Some 5))\<rparr>"
  let ?st = "\<lparr>fs = [[''d'', ''b.mp3''] \<mapsto> RegularFile], count = 1, trace = []\<rparr>"
  let ?p = "[''d'', ''b.mp3'']"
  have o: "with_suffix ?p ''.wav'' = Inr [''d'', ''b.wav'']" by code_simp
  have z: "filter usable (fst (transcribe ?w [''d'', ''b.wav''])) = []" by (simp add: usable_def)
  have k: "lower (suffix ?p) = ''.wav'' \<or> ffmpeg_ok ?w ?p" by simp
  from empty_transcript_no_output [OF o z k, of ?cfg 1 ?st]
  obtain st' where r: "process_file ?cfg ?w 1 ?st ?p = Inr st'"
    and n: "filter is_write (trace st') = []"
    by auto
  have "(case process_file ?cfg ?w 1 ?st ?p of Inl e \<Rightarrow> None | Inr st' \<Rightarrow> Some (trace st')) =
        Some [Print (Msg_Processing 1 1 [''d'', ''b.mp3'']), Print (Msg_Converting 1 1),
                Ffmpeg [''d'', ''b.mp3''] [''d'', ''b.wav''],
                Print (Msg_ConversionDone 1 1 [''d'', ''b.wav'']),
                Print (Msg_StartingWhisper 1 1), Print (Msg_Transcribing [''d'', ''b.wav'']),
                Transcribe [''d'', ''b.wav''], AudioBar 5, AudioBarClose, AudioUpdate 5,
                Print Msg_EmptyTranscript]"
    by code_simp
  with r n o show ?thesis by (simp add: usable_def)
qed

section \<open>The queue\<close>

text \<open>
  C6: without a single-file override, the discovered queue holds exactly the directory
  entries that are regular files with a recognized extension (compared
  case-insensitively), each once; it is sorted ascending by path; and it is the same for
  every order in which the directory yields its entries. Entries with another extension
  never appear.
\<close>

theorem discovered_queue:
  assumes "SINGLE_FILE cfg = None"
  shows "mset (discover cfg w fs0)
           = filter_mset (recognized fs0) (mset (map (\<lambda>n. AUDIO_DIR cfg @ [n]) (listdir w)))
     \<and> sorted (discover cfg w fs0)
     \<and> (mset (listdir w') = mset (listdir w) \<longrightarrow> discover cfg w' fs0 = discover cfg w fs0)"
proof -
  let ?P = "\<lambda>p. is_file fs0 p \<and> lower (suffix p) \<in> AUDIO_EXTS"
  let ?e = "\<lambda>w. map (\<lambda>n. AUDIO_DIR cfg @ [n]) (listdir w)"
  have P: "?P = recognized fs0" by (simp add: recognized_def AUDIO_EXTS_def fun_eq_iff)
  have d: "\<And>v. discover cfg v fs0 = sort (filter ?P (?e v))"
    using assms by (simp add: discover_def)
  have a: "mset (discover cfg w fs0) = filter_mset (recognized fs0) (mset (?e w))"
    unfolding d P by simp
  have b: "sorted (discover cfg w fs0)" unfolding d by simp
  have c: "mset (listdir w') = mset (listdir w) \<longrightarrow> discover cfg w' fs0 = discover cfg w fs0"
  proof
    assume m: "mset (listdir w') = mset (listdir w)"
    have "mset (?e w') = mset (?e w)"
      using m by (metis mset_map)
    then have "mset (sort (filter ?P (?e w))) = mset (filter ?P (?e w'))"
      by simp
    then have "sort (filter ?P (?e w')) = sort (filter ?P (?e w))"
      by (rule properties_for_sort) simp
    then show "discover cfg w' fs0 = discover cfg w fs0" unfolding d .
  qed
  from a b c show ?thesis by blast
qed

theorem discovered_queue_witness:
  "SINGLE_FILE \<lparr>AUDIO_DIR = [''d''], start_arg = 1, SINGLE_FILE = None,
       CONVERT_TO_WAV_ONLY = False, KEEP_WAV_FILES = False, FILE_COUNT = False\<rparr> = None
   \<and> mset [''dir.mp4'', ''a.wav'', ''note.txt'', ''b.MP3'']
       = mset [''b.MP3'', ''note.txt'', ''a.wav'', ''dir.mp4'']
   \<and> discover \<lparr>AUDIO_DIR = [''d''], start_arg = 1, SINGLE_FILE = None,
         CONVERT_TO_WAV_ONLY = False, KEEP_WAV_FILES = False, FILE_COUNT = False\<rparr>
       \<lparr>listdir = [''dir.mp4'', ''a.wav'', ''note.txt'', ''b.MP3''], ffmpeg_ok = (\<lambda>p. True),
        transcribe = (\<lambda>p. ([], None))\<rparr>
       [[''d'', ''b.MP3''] \<mapsto> RegularFile, [''d'', ''a.wav''] \<mapsto> RegularFile,
        [''d'', ''note.txt''] \<mapsto> RegularFile, [''d'', ''dir.mp4''] \<mapsto> Directory]
       = [[''d'', ''a.wav''], [''d'', ''b.MP3'']]"
proof -
  let ?cfg = "\<lparr>AUDIO_DIR = [''d''], start_arg = 1, SINGLE_FILE = None,
         CONVERT_TO_WAV_ONLY = False, KEEP_WAV_FILES = False, FILE_COUNT = False\<rparr>"
  let ?w = "\<lparr>listdir = [''b.MP3'', ''note.txt'', ''a.wav'', ''dir.mp4''], ffmpeg_ok = (\<lambda>p. True),
        transcribe = (\<lambda>p. ([], None))\<rparr>"
  let ?w' = "\<lparr>listdir = [''dir.mp4'', ''a.wav'', ''note.txt'', ''b.MP3''], ffmpeg_ok = (\<lambda>p. True),
        transcribe = (\<lambda>p. ([], None))\<rparr>"
  let ?fs = "[[''d'', ''b.MP3''] \<mapsto> RegularFile, [''d'', ''a.wav''] \<mapsto> RegularFile,
        [''d'', ''note.txt''] \<mapsto> RegularFile, [''d'', ''dir.mp4''] \<mapsto> Directory]"
  have h: "SINGLE_FILE ?cfg = None" by simp
  have m: "mset [''dir.mp4'', ''a.wav'', ''note.txt'', ''b.MP3'']
       = mset [''b.MP3'', ''note.txt'', ''a.wav'', ''dir.mp4'']" by simp
  then have m': "mset (listdir ?w') = mset (listdir ?w)" by simp
  from discovered_queue [OF h, of ?w ?fs ?w', THEN conjunct2, THEN conjunct2] m'
  have e: "discover ?cfg ?w' ?fs = discover ?cfg ?w ?fs" by (rule mp)
  have "discover ?cfg ?w ?fs = [[''d'', ''a.wav''], [''d'', ''b.MP3'']]" by code_simp
  with e h m show ?thesis by simp
qed

section \<open>The loop over the queue\<close>

lemma filter_audio_updates_start [simp]:
  "filter is_file_start (map AudioUpdate ks) = []"
  by (induction ks) simp_all

lemma taw_file_start:
  assumes "transcribe_and_write cfg w tot created out st = Inr st'"
  shows "filter is_file_start (trace st') = filter is_file_start (trace st)"
  using assms
  by (auto simp: transcribe_and_write_def emit_def Let_def split: prod.splits sum.splits if_splits)

lemma process_file_start:
  assumes "process_file cfg w tot st p = Inr st'"
  shows "length (filter is_file_start (trace st')) = Suc (length (filter is_file_start (trace st)))"
proof (cases "name p \<in> SKIP_FILES \<or> \<not> path_exists (fs st) p")
  case True
  with assms show ?thesis by (auto simp: process_file_def emit_def split: if_splits)
next
  case False
  let ?st1 = "emit [Print (Msg_Processing (count st) tot p), Print (Msg_Converting (count st) tot)] st"
  have s1: "length (filter is_file_start (trace ?st1)) = Suc (length (filter is_file_start (trace st)))"
    by (simp add: emit_def)
  from False assms show ?thesis
    by (auto simp: process_file_def Let_def emit_def split: sum.splits if_splits
        dest!: taw_file_start)
qed

lemma file_loop_start:
  "file_loop cfg w tot st ps = Inr st' \<Longrightarrow>
   length (filter is_file_start (trace st')) = length (filter is_file_start (trace st)) + length ps"
proof (induction ps arbitrary: st)
  case Nil
  then show ?case by simp
next
  case (Cons p ps)
  then obtain st1 where p: "process_file cfg w tot st p = Inr st1"
    and l: "file_loop cfg w tot st1 ps = Inr st'"
    by (auto split: sum.splits)
  from Cons.IH [OF l] process_file_start [OF p] show ?case by simp
qed

text \<open>
  C5: in a processing run (not the count-only query) with \<open>--start N\<close>: when
  \<open>1 \<le> N \<le>\<close> queue length, the loop runs over exactly the queue elements from position
  \<open>N - 1\<close> (0-indexed) onward, and a run that completes has opened the handling of exactly
  that many files; when \<open>N < 1\<close> or \<open>N >\<close> queue length, the run reports the out-of-range
  condition and returns with nothing else done: no conversion, no transcription, no
  output written, the file system unchanged.
\<close>

theorem start_index:
  assumes "\<not> FILE_COUNT cfg"
  shows "(1 \<le> start_arg cfg \<and> start_arg cfg \<le> int (length (discover cfg w fs0)) \<longrightarrow>
           whisper_folder cfg w fs0 =
             (case file_loop cfg w (int (length (discover cfg w fs0)))
                     \<lparr>fs = fs0, count = start_arg cfg,
                      trace = [Print (Msg_StartingFrom (start_arg cfg)),
                               FilesBar (int (length (discover cfg w fs0))) (start_arg cfg - 1),
                               Print Msg_LoadingModel, LoadModel]\<rparr>
                     (drop (nat (start_arg cfg - 1)) (discover cfg w fs0)) of
                Inl e \<Rightarrow> Inl e
              | Inr st \<Rightarrow> Inr (emit [FilesBarClose, Print Msg_Bye] st))
           \<and> (\<forall>st. whisper_folder cfg w fs0 = Inr st \<longrightarrow>
                 length (filter is_file_start (trace st))
                 = length (discover cfg w fs0) - nat (start_arg cfg - 1)))
     \<and> (start_arg cfg < 1 \<or> start_arg cfg > int (length (discover cfg w fs0)) \<longrightarrow>
           whisper_folder cfg w fs0 =
             Inr \<lparr>fs = fs0, count = 0,
                  trace = [Print (Msg_StartingFrom (start_arg cfg)), Print Msg_OutOfRange]\<rparr>)"
proof -
  let ?files = "discover cfg w fs0"
  let ?st0 = "\<lparr>fs = fs0, count = start_arg cfg,
                trace = [Print (Msg_StartingFrom (start_arg cfg)),
                         FilesBar (int (length ?files)) (start_arg cfg - 1),
                         Print Msg_LoadingModel, LoadModel]\<rparr>"
  let ?loop = "file_loop cfg w (int (length ?files)) ?st0 (drop (nat (start_arg cfg - 1)) ?files)"
  have a: "1 \<le> start_arg cfg \<and> start_arg cfg \<le> int (length ?files) \<longrightarrow>
      whisper_folder cfg w fs0 =
        (case ?loop of Inl e \<Rightarrow> Inl e | Inr st \<Rightarrow> Inr (emit [FilesBarClose, Print Msg_Bye] st))"
    using assms by (auto simp: whisper_folder_def Let_def emit_def py_slice_from_def)
  have b: "1 \<le> start_arg cfg \<and> start_arg cfg \<le> int (length ?files) \<longrightarrow>
      (\<forall>st. whisper_folder cfg w fs0 = Inr st \<longrightarrow>
         length (filter is_file_start (trace st)) = length ?files - nat (start_arg cfg - 1))"
  proof (intro impI allI)
    fix st
    assume r: "1 \<le> start_arg cfg \<and> start_arg cfg \<le> int (length ?files)"
      and e: "whisper_folder cfg w fs0 = Inr st"
    from a r e obtain st1 where l: "?loop = Inr st1"
      and s: "st = emit [FilesBarClose, Print Msg_Bye] st1"
      by (auto split: sum.splits)
    from file_loop_start [OF l]
    have "length (filter is_file_start (trace st1)) = length ?files - nat (start_arg cfg - 1)"
      by simp
    then show "length (filter is_file_start (trace st)) = length ?files - nat (start_arg cfg - 1)"
      unfolding s by (simp add: emit_def)
  qed
  have c: "start_arg cfg < 1 \<or> start_arg cfg > int (length ?files) \<longrightarrow>
      whisper_folder cfg w fs0 =
        Inr \<lparr>fs = fs0, count = 0,
             trace = [Print (Msg_StartingFrom (start_arg cfg)), Print Msg_OutOfRange]\<rparr>"
    using assms by (auto simp: whisper_folder_def Let_def emit_def)
  from a b c show ?thesis by blast
qed

theorem start_index_witness:
  "\<not> FILE_COUNT \<lparr>AUDIO_DIR = [''d''], start_arg = 2, SINGLE_FILE = None,
         CONVERT_TO_WAV_ONLY = True, KEEP_WAV_FILES = False, FILE_COUNT = False\<rparr>
   \<and> (case whisper_folder
          \<lparr>AUDIO_DIR = [''d''], start_arg = 2, SINGLE_FILE = None,
           CONVERT_TO_WAV_ONLY = True, KEEP_WAV_FILES = False, FILE_COUNT = False\<rparr>
          \<lparr>listdir = [''c.mp3'', ''a.mp3'', ''b.mp3''], ffmpeg_ok = (\<lambda>p. True),
           transcribe = (\<lambda>p. ([], None))\<rparr>
          [[''d'', ''a.mp3''] \<mapsto> RegularFile, [''d'', ''b.mp3''] \<mapsto> RegularFile,
           [''d'', ''c.mp3''] \<mapsto> RegularFile]
        of Inl e \<Rightarrow> None | Inr st \<Rightarrow> Some (filter is_ffmpeg (trace st)))
       = Some [Ffmpeg [''d'', ''b.mp3''] [''d'', ''b.wav''],
               Ffmpeg [''d'', ''c.mp3''] [''d'', ''c.wav'']]
   \<and> (case whisper_folder
          \<lparr>AUDIO_DIR = [''d''], start_arg = 4, SINGLE_FILE = None,
           CONVERT_TO_WAV_ONLY = True, KEEP_WAV_FILES = False, FILE_COUNT = False\<rparr>
          \<lparr>listdir = [''c.mp3'', ''a.mp3'', ''b.mp3''], ffmpeg_ok = (\<lambda>p. True),
           transcribe = (\<lambda>p. ([], None))\<rparr>
          [[''d'', ''a.mp3''] \<mapsto> RegularFile, [''d'', ''b.mp3''] \<mapsto> RegularFile,
           [''d'', ''c.mp3''] \<mapsto> RegularFile]
        of Inl e \<Rightarrow> None | Inr st \<Rightarrow> Some (trace st))
       = Some [Print (Msg_StartingFrom 4), Print Msg_OutOfRange]"
proof -
  let ?cfg = "\<lambda>n. \<lparr>AUDIO_DIR = [''d''], start_arg = n, SINGLE_FILE = None,
           CONVERT_TO_WAV_ONLY = True, KEEP_WAV_FILES = False, FILE_COUNT = False\<rparr>"
  let ?w = "\<lparr>listdir = [''c.mp3'', ''a.mp3'', ''b.mp3''], ffmpeg_ok = (\<lambda>p. True),
           transcribe = (\<lambda>p. ([], None))\<rparr>"
  let ?fs = "[[''d'', ''a.mp3''] \<mapsto> RegularFile, [''d'', ''b.mp3''] \<mapsto> RegularFile,
           [''d'', ''c.mp3''] \<mapsto> RegularFile]"
  have q2: "discover (?cfg 2) ?w ?fs = [[''d'', ''a.mp3''], [''d'', ''b.mp3''], [''d'', ''c.mp3'']]"
    by code_simp
  have q4: "discover (?cfg 4) ?w ?fs = [[''d'', ''a.mp3''], [''d'', ''b.mp3''], [''d'', ''c.mp3'']]"
    by code_simp
  have h2: "\<not> FILE_COUNT (?cfg 2)" and h4: "\<not> FILE_COUNT (?cfg 4)" by simp_all
  have r2: "1 \<le> start_arg (?cfg 2) \<and> start_arg (?cfg 2) \<le> int (length (discover (?cfg 2) ?w ?fs))"
    unfolding q2 by simp
  have r4: "start_arg (?cfg 4) < 1 \<or> start_arg (?cfg 4) > int (length (discover (?cfg 4) ?w ?fs))"
    unfolding q4 by simp
  from start_index [OF h2, of ?w ?fs, THEN conjunct1] r2
  have a0: "whisper_folder (?cfg 2) ?w ?fs =
             (case file_loop (?cfg 2) ?w (int (length (discover (?cfg 2) ?w ?fs)))
                     \<lparr>fs = ?fs, count = start_arg (?cfg 2),
                      trace = [Print (Msg_StartingFrom (start_arg (?cfg 2))),
                               FilesBar (int (length (discover (?cfg 2) ?w ?fs))) (start_arg (?cfg 2) - 1),
                               Print Msg_LoadingModel, LoadModel]\<rparr>
                     (drop (nat (start_arg (?cfg 2) - 1)) (discover (?cfg 2) ?w ?fs)) of
                Inl e \<Rightarrow> Inl e
              | Inr st \<Rightarrow> Inr (emit [FilesBarClose, Print Msg_Bye] st))
           \<and> (\<forall>st. whisper_folder (?cfg 2) ?w ?fs = Inr st \<longrightarrow>
                 length (filter is_file_start (trace st))
                 = length (discover (?cfg 2) ?w ?fs) - nat (start_arg (?cfg 2) - 1))"
    by (rule mp)
  then have a: "whisper_folder (?cfg 2) ?w ?fs =
             (case file_loop (?cfg 2) ?w (int (length (discover (?cfg 2) ?w ?fs)))
                     \<lparr>fs = ?fs, count = start_arg (?cfg 2),
                      trace = [Print (Msg_StartingFrom (start_arg (?cfg 2))),
                               FilesBar (int (length (discover (?cfg 2) ?w ?fs))) (start_arg (?cfg 2) - 1),
                               Print Msg_LoadingModel, LoadModel]\<rparr>
                     (drop (nat (start_arg (?cfg 2) - 1)) (discover (?cfg 2) ?w ?fs)) of
                Inl e \<Rightarrow> Inl e
              | Inr st \<Rightarrow> Inr (emit [FilesBarClose, Print Msg_Bye] st))"
    by (rule conjunct1)
  have "(case (case file_loop (?cfg 2) ?w 3
                     \<lparr>fs = ?fs, count = 2,
                      trace = [Print (Msg_StartingFrom 2), FilesBar 3 1,
                               Print Msg_LoadingModel, LoadModel]\<rparr>
                     [[''d'', ''b.mp3''], [''d'', ''c.mp3'']] of
                Inl e \<Rightarrow> Inl e
              | Inr st \<Rightarrow> Inr (emit [FilesBarClose, Print Msg_Bye] st))
         of Inl e \<Rightarrow> None | Inr st \<Rightarrow> Some (filter is_ffmpeg (trace st)))
       = Some [Ffmpeg [''d'', ''b.mp3''] [''d'', ''b.wav''],
               Ffmpeg [''d'', ''c.mp3''] [''d'', ''c.wav'']]"
    by code_simp
  then have b: "(case whisper_folder (?cfg 2) ?w ?fs
         of Inl e \<Rightarrow> None | Inr st \<Rightarrow> Some (filter is_ffmpeg (trace st)))
       = Some [Ffmpeg [''d'', ''b.mp3''] [''d'', ''b.wav''],
               Ffmpeg [''d'', ''c.mp3''] [''d'', ''c.wav'']]"
    unfolding a q2 by simp
  from start_index [OF h4, of ?w ?fs, THEN conjunct2] r4
  have "whisper_folder (?cfg 4) ?w ?fs =
             Inr \<lparr>fs = ?fs, count = 0,
                  trace = [Print (Msg_StartingFrom (start_arg (?cfg 4))), Print Msg_OutOfRange]\<rparr>"
    by (rule mp)
  then have c: "(case whisper_folder (?cfg 4) ?w ?fs
        of Inl e \<Rightarrow> None | Inr st \<Rightarrow> Some (trace st))
       = Some [Print (Msg_StartingFrom 4), Print Msg_OutOfRange]"
    by simp
  from h2 b c show ?thesis by simp
qed

section \<open>Where the program departs from its specification\<close>

text \<open>
  C1 says that a file whose transcription yields at least one segment with non-empty text
  gets both documents written, in one flush after the last segment. The flush is nested
  inside \<^verbatim>\<open>if remaining > 0\<close> (line 217): when the whole seconds issued to the audio bar
  already reach its total, nothing is written. Here the audio lasts 10 seconds and its
  single segment, with text, ends at 10: the run completes without a \<open>WriteText\<close>.
\<close>

theorem outputs_skipped_when_progress_complete:
  "(case whisper_folder
     \<lparr>AUDIO_DIR = [''d''], start_arg = 1, SINGLE_FILE = None, CONVERT_TO_WAV_ONLY = False,
      KEEP_WAV_FILES = False, FILE_COUNT = False\<rparr>
     \<lparr>listdir = [''a.wav''], ffmpeg_ok = (\<lambda>p. True),
      transcribe = (\<lambda>p. ([\<lparr>seg_start = 0, seg_end = 10, seg_text = ''hi''\<rparr>], Some 10))\<rparr>
     [[''d'', ''a.wav''] \<mapsto> RegularFile]
   of Inl e \<Rightarrow> None | Inr st \<Rightarrow> Some (trace st)) =
   Some [Print (Msg_StartingFrom 1), FilesBar 1 0, Print Msg_LoadingModel, LoadModel,
     Print (Msg_Processing 1 1 [''d'', ''a.wav'']), Print (Msg_Converting 1 1),
     Print (Msg_StartingWhisper 1 1), Print (Msg_Transcribing [''d'', ''a.wav'']),
     Transcribe [''d'', ''a.wav''], AudioBar 10, AudioUpdate 10, AudioBarClose,
     FilesUpdate 1, FilesBarClose, Print Msg_Bye]"
  by code_simp

text \<open>
  C9 says that the outer progress bar advances by one tick for every file handled,
  skipped files included. The \<^verbatim>\<open>continue\<close> of the skip list (line 98), of a missing file
  (line 103), of conversion-only mode (line 137) and of an empty transcript (line 223)
  leaves the loop body before \<^verbatim>\<open>pbar_files.update(1)\<close> (line 240). Here the queue holds
  a skip-listed file and a WAV file: the bar is created with total 2 and initial position
  0, and two files are handled, but only one tick is issued.
\<close>

theorem skipped_file_gets_no_tick:
  "(case whisper_folder
     \<lparr>AUDIO_DIR = [''d''], start_arg = 1, SINGLE_FILE = None, CONVERT_TO_WAV_ONLY = False,
      KEEP_WAV_FILES = False, FILE_COUNT = False\<rparr>
     \<lparr>listdir = [''b.wav'', ''00. Professor.avi''], ffmpeg_ok = (\<lambda>p. True),
      transcribe = (\<lambda>p. ([\<lparr>seg_start = 0, seg_end = 19 / 2, seg_text = ''hi''\<rparr>], Some 10))\<rparr>
     [[''d'', ''00. Professor.avi''] \<mapsto> RegularFile, [''d'', ''b.wav''] \<mapsto> RegularFile]
   of Inl e \<Rightarrow> None | Inr st \<Rightarrow> Some (trace st)) =
   Some [Print (Msg_StartingFrom 1), FilesBar 2 0, Print Msg_LoadingModel, LoadModel,
     Print (Msg_Skipping ''00. Professor.avi''),
     Print (Msg_Processing 2 2 [''d'', ''b.wav'']), Print (Msg_Converting 2 2),
     Print (Msg_StartingWhisper 2 2), Print (Msg_Transcribing [''d'', ''b.wav'']),
     Transcribe [''d'', ''b.wav''], AudioBar 10, AudioUpdate 9, AudioBarClose, AudioUpdate 1,
     Print Msg_StartingWriting,
     WriteText [''d'', ''b.txt''] ''hi'',
     WriteText [''d'', ''b.srt'']
       (''1'' @ [CHR 0x0A] @ ''00:00:00,000 --> 00:00:09,500'' @ [CHR 0x0A] @ ''hi'' @ [CHR 0x0A]),
     Print (Msg_Wrote [''d'', ''b.txt'']), Print (Msg_Wrote [''d'', ''b.srt'']),
     Print (Msg_Done 2 2),
     FilesUpdate 1, FilesBarClose, Print Msg_Bye]"
  by code_simp

end
